theory Spec2Isabelle
  imports Complex_Main "HOL-Library.Word"
begin

text \<open>
  A model of the calendar weather bot. The file \<^verbatim>\<open>index.js\<close> holds two revisions of the
  program one after the other; the model follows the later one, from line 213 on, and line
  numbers refer to it. Of the output on the console only the error reports are kept.
\<close>

section \<open>JavaScript strings\<close>

text \<open>
  A JavaScript string is a sequence of UTF-16 code units. Characters outside the Basic
  Multilingual Plane are two code units, a high surrogate followed by a low surrogate; a
  surrogate that is not part of such a pair is a legal element of a string all the same.
\<close>

type_synonym code_unit = "16 word"
type_synonym js_string = "code_unit list"

definition js :: "string \<Rightarrow> js_string" where
  "js s = map (\<lambda>c. of_nat (of_char c)) s"

definition LPAREN :: code_unit where "LPAREN = 0x28"
definition RPAREN :: code_unit where "RPAREN = 0x29"
definition SPACE :: code_unit where "SPACE = 0x20"

definition is_high :: "code_unit \<Rightarrow> bool" where
  "is_high x \<longleftrightarrow> 0xD800 \<le> x \<and> x \<le> 0xDBFF"

definition is_low :: "code_unit \<Rightarrow> bool" where
  "is_low x \<longleftrightarrow> 0xDC00 \<le> x \<and> x \<le> 0xDFFF"

definition code_point :: "code_unit \<Rightarrow> code_unit \<Rightarrow> nat" where
  "code_point hi lo = 0x10000 + (unat hi - 0xD800) * 0x400 + (unat lo - 0xDC00)"

text \<open>\<^verbatim>\<open>String.prototype.isWellFormed\<close>: no surrogate stands alone.\<close>

fun well_formed :: "js_string \<Rightarrow> bool" where
  "well_formed [] = True"
| "well_formed [x] = (\<not> is_high x \<and> \<not> is_low x)"
| "well_formed (x # y # zs) =
     (if is_high x then is_low y \<and> well_formed zs
      else \<not> is_low x \<and> well_formed (y # zs))"

text \<open>
  \<^verbatim>\<open>String.prototype.trim\<close> removes the white space and line terminator code units of
  ECMAScript from both ends.
\<close>

definition is_ws :: "code_unit \<Rightarrow> bool" where
  "is_ws x \<longleftrightarrow>
     x = 0x9 \<or> x = 0xA \<or> x = 0xB \<or> x = 0xC \<or> x = 0xD \<or> x = 0x20 \<or> x = 0xA0 \<or>
     x = 0x1680 \<or> (0x2000 \<le> x \<and> x \<le> 0x200A) \<or> x = 0x2028 \<or> x = 0x2029 \<or>
     x = 0x202F \<or> x = 0x205F \<or> x = 0x3000 \<or> x = 0xFEFF"

definition trim :: "js_string \<Rightarrow> js_string" where
  "trim s = rev (dropWhile is_ws (rev (dropWhile is_ws s)))"

section \<open>Title cleaning (index.js, lines 387-390)\<close>

text \<open>
  \<^verbatim>\<open>summary.replace(/\([^)]*\)/g, '')\<close>. The scan goes left to right. At an opening
  parenthesis the pattern matches when a closing parenthesis follows somewhere, and the
  match ends at the first one, since the class excludes it. The scan resumes after the
  match. Where no closing parenthesis follows, the pattern fails at this position and the
  scan moves one code unit on.
\<close>

fun after_close :: "js_string \<Rightarrow> js_string option" where
  "after_close [] = None"
| "after_close (x # xs) = (if x = RPAREN then Some xs else after_close xs)"

function remove_parens :: "js_string \<Rightarrow> js_string" where
  "remove_parens [] = []"
| "remove_parens (x # xs) =
     (if x = LPAREN then
        (case after_close xs of
           Some rest \<Rightarrow> remove_parens rest
         | None \<Rightarrow> x # remove_parens xs)
      else x # remove_parens xs)"
  by pat_completeness auto
termination
proof -
  have shorter: "length r < length xs" if "after_close xs = Some r" for xs r
    using that by (induction xs) (auto split: if_splits)
  show ?thesis
    by (relation "measure length") (auto dest: shorter)
qed

text \<open>
  \<^verbatim>\<open>cleanTitle.replace(/[\u{1F300}-\u{1F9FF}]/gu, '')\<close>. With the \<^verbatim>\<open>u\<close> flag the scan
  reads code points: a high surrogate directly followed by a low surrogate is one code
  point and the scan moves over both; any other code unit is a code point of its own,
  below the range of the class.
\<close>

definition is_emoji :: "nat \<Rightarrow> bool" where
  "is_emoji cp \<longleftrightarrow> 0x1F300 \<le> cp \<and> cp \<le> 0x1F9FF"

fun remove_emoji :: "js_string \<Rightarrow> js_string" where
  "remove_emoji [] = []"
| "remove_emoji [x] = [x]"
| "remove_emoji (x # y # zs) =
     (if is_high x \<and> is_low y then
        (if is_emoji (code_point x y) then remove_emoji zs
         else x # y # remove_emoji zs)
      else x # remove_emoji (y # zs))"

definition strip :: "js_string \<Rightarrow> js_string" where
  "strip summary = trim (remove_emoji (trim (remove_parens summary)))"

text \<open>No opening parenthesis has a closing one to its right.\<close>

fun no_group :: "js_string \<Rightarrow> bool" where
  "no_group [] = True"
| "no_group (x # xs) = ((x \<noteq> LPAREN \<or> RPAREN \<notin> set xs) \<and> no_group xs)"

text \<open>\<^verbatim>\<open>`${cleanTitle} ${weatherDesc}`\<close>\<close>

definition newTitle :: "js_string \<Rightarrow> js_string \<Rightarrow> js_string" where
  "newTitle cleanTitle weatherDesc = cleanTitle @ [SPACE] @ weatherDesc"

section \<open>Weather descriptions (index.js, lines 292-328)\<close>

text \<open>
  \<^verbatim>\<open>Math.round\<close> rounds to the nearest integer, a half towards plus infinity. The
  temperature is a rational here; the decimal form of the rounded value is the one JavaScript
  prints for an integer of magnitude below \<open>10^21\<close>.
\<close>

definition Math_round :: "rat \<Rightarrow> int" where
  "Math_round x = \<lfloor>x + 1 / 2\<rfloor>"

definition digit :: "nat \<Rightarrow> code_unit" where
  "digit d = of_nat (48 + d)"

fun nat_digits :: "nat \<Rightarrow> js_string" where
  "nat_digits n = (if n < 10 then [digit n] else nat_digits (n div 10) @ [digit (n mod 10)])"

declare nat_digits.simps [simp del]

definition number_string :: "int \<Rightarrow> js_string" where
  "number_string i = (if i < 0 then 0x2D # nat_digits (nat (- i)) else nat_digits (nat i))"

text \<open>
  \<^verbatim>\<open>`(${condition}, ${Math.round(tempC)}dC)`\<close>, where \<^verbatim>\<open>d\<close> stands for the
  degree sign U+00B0 of the source.
\<close>

definition describe :: "js_string \<Rightarrow> rat \<Rightarrow> js_string" where
  "describe condition tempC =
     [LPAREN] @ condition @ js '', '' @ number_string (Math_round tempC) @ [0xB0, 0x43, RPAREN]"

definition forecast_unavailable :: js_string where
  "forecast_unavailable = js ''(forecast unavailable)''"

definition weather_unavailable :: js_string where
  "weather_unavailable = js ''(weather unavailable)''"


text \<open>\<^verbatim>\<open>String.prototype.endsWith\<close>\<close>

definition endsWith :: "js_string \<Rightarrow> js_string \<Rightarrow> bool" where
  "endsWith t p \<longleftrightarrow> length p \<le> length t \<and> drop (length t - length p) t = p"

section \<open>The collaborators\<close>

text \<open>
  An error object is told apart by its \<^verbatim>\<open>code\<close> property only: the status of an HTTP
  error of the calendar client, a string for a network failure, nothing for a
  \<^verbatim>\<open>TypeError\<close> of the runtime.
\<close>

datatype js_error = TypeError | HttpError int | NetworkError

text \<open>
  A calendar event as the code reads it. \<open>start\<close> is the time value, in milliseconds, of
  \<^verbatim>\<open>new Date(event.start.dateTime || event.start.date)\<close>, and \<open>None\<close> when the event has
  no \<^verbatim>\<open>start\<close> property; the date text is taken to parse. \<open>summary\<close> is \<open>None\<close> when
  the event has no title.
\<close>

record event =
  ev_id :: js_string
  summary :: "js_string option"
  start :: "int option"

text \<open>
  The parameters of \<^verbatim>\<open>calendar.events.list\<close> that vary; \<^verbatim>\<open>calendarId\<close>,
  \<^verbatim>\<open>singleEvents\<close> and \<^verbatim>\<open>orderBy\<close> are constants. A token is \<open>None\<close> for
  \<^verbatim>\<open>null\<close> and \<^verbatim>\<open>undefined\<close>, which the code does not tell apart.
\<close>

record list_params =
  timeMin :: "int option"
  timeMax :: "int option"
  syncToken :: "js_string option"

record list_response =
  items :: "event list option"
  nextSyncToken :: "js_string option"

record hour_entry =
  h_time :: int
  condition_text :: js_string
  temp_c :: rat

record forecastday =
  fd_date :: int
  hour :: "hour_entry list"

text \<open>What a cycle does to the outside, in order.\<close>

datatype call =
    ListCall list_params
  | ForecastCall int
  | PatchCall js_string js_string
  | WeatherErrorLogged
  | ErrorLogged js_error

text \<open>
  The runtime and the services. Each answer may depend on the number of the interaction,
  so that a service can answer the same request differently later. \<open>axios_get\<close> is
  \<open>None\<close> when the request throws or the response lacks the fields that are read.
  The local time zone has a fixed offset to UTC.
\<close>

record env =
  clock :: "nat \<Rightarrow> int"
  utc_offset :: int
  toLowerCase :: "js_string \<Rightarrow> js_string"
  events_list :: "nat \<Rightarrow> list_params \<Rightarrow> js_error + list_response"
  events_patch :: "nat \<Rightarrow> js_string \<Rightarrow> js_string \<Rightarrow> js_error option"
  axios_get :: "nat \<Rightarrow> int \<Rightarrow> forecastday list option"

record state =
  lastSyncToken :: "js_string option"
  tick :: nat
  trace :: "call list"

definition new_Date :: "env \<Rightarrow> state \<Rightarrow> int \<times> state" where
  "new_Date e st = (clock e (tick st), st\<lparr>tick := Suc (tick st)\<rparr>)"

definition interact :: "call \<Rightarrow> state \<Rightarrow> state" where
  "interact c st = st\<lparr>tick := Suc (tick st), trace := trace st @ [c]\<rparr>"

definition console_error :: "call \<Rightarrow> state \<Rightarrow> state" where
  "console_error c st = st\<lparr>trace := trace st @ [c]\<rparr>"

definition ms_per_day :: int where
  "ms_per_day = 1000 * 60 * 60 * 24"

text \<open>
  \<^verbatim>\<open>Math.ceil((eventDate - now) / (1000 * 60 * 60 * 24))\<close>, in exact arithmetic.
\<close>

definition daysDifference :: "int \<Rightarrow> int \<Rightarrow> int" where
  "daysDifference eventDate now = - ((now - eventDate) div ms_per_day)"

text \<open>
  Two dates have the same \<^verbatim>\<open>toDateString()\<close> exactly when they fall on the same day of
  the local calendar, so the number of that day stands for the text. \<^verbatim>\<open>getHours()\<close> is
  the hour of the local day.
\<close>

definition toDateString :: "env \<Rightarrow> int \<Rightarrow> int" where
  "toDateString e t = (t + utc_offset e) div ms_per_day"

definition getHours :: "env \<Rightarrow> int \<Rightarrow> int" where
  "getHours e t = ((t + utc_offset e) mod ms_per_day) div (1000 * 60 * 60)"

section \<open>getWeatherInfo\<close>

definition getWeatherInfo :: "env \<Rightarrow> int \<Rightarrow> state \<Rightarrow> js_string \<times> state" where
  "getWeatherInfo e eventDate st =
     (let (now, st1) = new_Date e st;
          days = daysDifference eventDate now
      in if days > 14 then (forecast_unavailable, st1)
         else
           (let st2 = interact (ForecastCall (days + 1)) st1 in
            case axios_get e (tick st1) (days + 1) of
              None \<Rightarrow> (weather_unavailable, console_error WeatherErrorLogged st2)
            | Some forecastdays \<Rightarrow>
               (case find (\<lambda>day. toDateString e (fd_date day) = toDateString e eventDate)
                       forecastdays of
                  None \<Rightarrow> (forecast_unavailable, st2)
                | Some forecast \<Rightarrow>
                    (case (case find (\<lambda>h. getHours e (h_time h) = getHours e eventDate)
                                  (hour forecast) of
                             Some h \<Rightarrow> Some h
                           | None \<Rightarrow> (case hour forecast of [] \<Rightarrow> None | h # _ \<Rightarrow> Some h)) of
                       None \<Rightarrow> (weather_unavailable, console_error WeatherErrorLogged st2)
                     | Some hourData \<Rightarrow>
                         (describe (toLowerCase e (condition_text hourData)) (temp_c hourData),
                          st2)))))"

section \<open>updateCalendarEvents\<close>

text \<open>The body of the loop over the events: the error thrown, if any, and the state.\<close>

definition process_event :: "env \<Rightarrow> int \<Rightarrow> event \<Rightarrow> state \<Rightarrow> js_error option \<times> state" where
  "process_event e tmax ev st =
     (case start ev of
        None \<Rightarrow> (Some TypeError, st)
      | Some eventDate \<Rightarrow>
          if eventDate > tmax then (None, st)
          else
            (let (weatherDesc, st1) = getWeatherInfo e eventDate st in
             (case summary ev of
                None \<Rightarrow> (Some TypeError, st1)
              | Some title \<Rightarrow>
                  (let candidate = newTitle (strip title) weatherDesc in
                   if candidate \<noteq> title then
                     (events_patch e (tick st1) (ev_id ev) candidate,
                      interact (PatchCall (ev_id ev) candidate) st1)
                   else (None, st1)))))"

fun process_events :: "env \<Rightarrow> int \<Rightarrow> event list \<Rightarrow> state \<Rightarrow> js_error option \<times> state" where
  "process_events e tmax [] st = (None, st)"
| "process_events e tmax (ev # evs) st =
     (case process_event e tmax ev st of
        (None, st') \<Rightarrow> process_events e tmax evs st'
      | (Some err, st') \<Rightarrow> (Some err, st'))"

text \<open>\<^verbatim>\<open>if (syncToken)\<close>: \<^verbatim>\<open>null\<close>, \<^verbatim>\<open>undefined\<close> and the empty string are falsy.\<close>

definition truthy :: "js_string option \<Rightarrow> bool" where
  "truthy tok = (case tok of None \<Rightarrow> False | Some s \<Rightarrow> s \<noteq> [])"

definition listParams :: "js_string option \<Rightarrow> int \<Rightarrow> int \<Rightarrow> list_params" where
  "listParams tok tmin tmax =
     (if truthy tok then \<lparr>timeMin = None, timeMax = None, syncToken = tok\<rparr>
      else \<lparr>timeMin = Some tmin, timeMax = Some tmax, syncToken = None\<rparr>)"

text \<open>
  Lines 339-342: \<^verbatim>\<open>timeMin\<close> and \<^verbatim>\<open>timeMax\<close>, two readings of the clock, the second
  moved seven days on.
\<close>

definition bounds :: "env \<Rightarrow> state \<Rightarrow> (int \<times> int) \<times> state" where
  "bounds e st =
     (let (tmin, st1) = new_Date e st;
          (t, st2) = new_Date e st1
      in ((tmin, t + 7 * ms_per_day), st2))"

text \<open>Lines 344-362: the request is built and sent.\<close>

definition fetch :: "env \<Rightarrow> js_string option \<Rightarrow> state \<Rightarrow> (js_error + list_response) \<times> state" where
  "fetch e tok st =
     (let ((tmin, tmax), st2) = bounds e st;
          params = listParams tok tmin tmax
      in (events_list e (tick st2) params, interact (ListCall params) st2))"

text \<open>
  Line 407: when the loop has gone through all events, the clock is read once more for the
  closing message. A loop that threw does not get there.
\<close>

definition completed :: "env \<Rightarrow> js_error option \<times> state \<Rightarrow> js_error option \<times> state" where
  "completed e r =
     (case r of
        (None, st) \<Rightarrow> (None, snd (new_Date e st))
      | (Some err, st) \<Rightarrow> (Some err, st))"

text \<open>The \<^verbatim>\<open>try\<close> block: the error that leaves it, if any, and the state at that moment.\<close>

definition try_block :: "env \<Rightarrow> js_string option \<Rightarrow> state \<Rightarrow> js_error option \<times> state" where
  "try_block e tok st =
     (case fetch e tok st of
        (Inl err, st3) \<Rightarrow> (Some err, st3)
      | (Inr res, st3) \<Rightarrow>
          (let st4 = st3\<lparr>lastSyncToken := nextSyncToken res\<rparr> in
           (case items res of
              None \<Rightarrow> (None, st4)
            | Some evs \<Rightarrow>
                if evs = [] then (None, st4)
                else completed e (process_events e (snd (fst (bounds e st))) evs st4))))"

text \<open>
  The function with its \<^verbatim>\<open>catch\<close> block. The handler calls the function again, so the
  depth of the calls is counted: \<open>None\<close> says that the given depth did not suffice.
\<close>

fun updateCalendarEvents :: "nat \<Rightarrow> env \<Rightarrow> js_string option \<Rightarrow> state \<Rightarrow> state option" where
  "updateCalendarEvents 0 e tok st = None"
| "updateCalendarEvents (Suc depth) e tok st =
     (case try_block e tok st of
        (None, st') \<Rightarrow> Some st'
      | (Some err, st') \<Rightarrow>
          if err = HttpError 410 then
            updateCalendarEvents depth e None (st'\<lparr>lastSyncToken := None\<rparr>)
          else Some (console_error (ErrorLogged err) st'))"


text \<open>The patches a trace holds: event id and new title, in order.\<close>

fun patches :: "call list \<Rightarrow> (js_string \<times> js_string) list" where
  "patches [] = []"
| "patches (PatchCall i t # cs) = (i, t) # patches cs"
| "patches (c # cs) = patches cs"

section \<open>A concrete world\<close>

text \<open>
  A clock that advances one second per interaction, the zone of Seoul, and a forecast of
  one day with one hourly entry. The answers of the calendar are parameters.
\<close>

definition ascii_lower :: "js_string \<Rightarrow> js_string" where
  "ascii_lower s = map (\<lambda>c. if 0x41 \<le> c \<and> c \<le> 0x5A then c + 0x20 else c) s"

definition demo_env :: "(nat \<Rightarrow> js_error + list_response) \<Rightarrow> (nat \<Rightarrow> js_error option) \<Rightarrow> env" where
  "demo_env lst pat =
     \<lparr>clock = (\<lambda>n. 1000 * int n),
      utc_offset = 9 * 3600000,
      toLowerCase = ascii_lower,
      events_list = (\<lambda>n p. lst n),
      events_patch = (\<lambda>n i t. pat n),
      axios_get = (\<lambda>n days.
        Some [\<lparr>fd_date = 0,
               hour = [\<lparr>h_time = 0, condition_text = js ''Cloudy'', temp_c = 39 / 2\<rparr>]\<rparr>])\<rparr>"

definition st0 :: state where
  "st0 = \<lparr>lastSyncToken = None, tick = 0, trace = []\<rparr>"

definition standup :: event where
  "standup = \<lparr>ev_id = js ''e1'', summary = Some (js ''Standup''), start = Some 3600000\<rparr>"

definition lunch :: event where
  "lunch = \<lparr>ev_id = js ''e2'', summary = Some (js ''Lunch''), start = Some 7200000\<rparr>"

definition cloudy_20 :: js_string where
  "cloudy_20 = js ''(cloudy, 20'' @ [0xB0] @ js ''C)''"

definition decorated :: event where
  "decorated = \<lparr>ev_id = js ''e3'', summary = Some (js ''Review '' @ cloudy_20), start = Some 3600000\<rparr>"

definition next_week :: event where
  "next_week = \<lparr>ev_id = js ''e4'', summary = Some (js ''Offsite''), start = Some (8 * ms_per_day)\<rparr>"

definition answer :: "event list \<Rightarrow> js_string option \<Rightarrow> js_error + list_response" where
  "answer evs tok = Inr \<lparr>items = Some evs, nextSyncToken = tok\<rparr>"

text \<open>Worlds that differ in what the calendar answers and when.\<close>

definition fails_at :: "nat \<Rightarrow> js_error \<Rightarrow> nat \<Rightarrow> js_error option" where
  "fails_at k err n = (if n = k then Some err else None)"

definition world_ok :: env where
  "world_ok = demo_env (\<lambda>n. answer [standup, lunch] (Some (js ''T1''))) (\<lambda>n. None)"

definition world_patch_500 :: env where
  "world_patch_500 =
     demo_env (\<lambda>n. answer [standup, lunch] (Some (js ''T1''))) (fails_at 5 (HttpError 500))"

definition world_gone_twice :: env where
  "world_gone_twice =
     demo_env (\<lambda>n. if n = 2 \<or> n = 5 then Inl (HttpError 410) else answer [] (Some (js ''T2'')))
       (\<lambda>n. None)"

definition world_gone_once :: env where
  "world_gone_once =
     demo_env (\<lambda>n. if n = 2 then Inl (HttpError 410) else answer [standup] (Some (js ''T2'')))
       (\<lambda>n. None)"

definition world_gone_then_down :: env where
  "world_gone_then_down =
     demo_env (\<lambda>n. if n = 2 then Inl (HttpError 410) else Inl (HttpError 503)) (\<lambda>n. None)"

definition world_patch_gone :: env where
  "world_patch_gone =
     demo_env (\<lambda>n. if n = 2 then answer [standup] (Some (js ''T1'')) else Inl (HttpError 500))
       (\<lambda>n. Some (HttpError 410))"

definition world_down :: env where
  "world_down = demo_env (\<lambda>n. Inl (HttpError 500)) (\<lambda>n. None)"

definition world_mixed :: env where
  "world_mixed = demo_env (\<lambda>n. answer [next_week, standup] (Some (js ''T1''))) (\<lambda>n. None)"

definition world_empty_token :: env where
  "world_empty_token = demo_env (\<lambda>n. answer [] (Some [])) (\<lambda>n. None)"

definition st_T0 :: state where
  "st_T0 = \<lparr>lastSyncToken = Some (js ''T0''), tick = 0, trace = []\<rparr>"

definition world_patch_500_second :: env where
  "world_patch_500_second =
     demo_env (\<lambda>n. answer [standup, lunch, decorated] (Some (js ''T1''))) (fails_at 8 (HttpError 500))"

definition edge :: event where
  "edge = \<lparr>ev_id = js ''e5'', summary = Some (js ''Offsite''), start = Some 604803000\<rparr>"

definition world_retry_moves_bound :: env where
  "world_retry_moves_bound =
     demo_env (\<lambda>n. answer [edge, standup] (Some (js ''T1''))) (fails_at 5 (HttpError 410))"

section \<open>The title codec\<close>

subsection \<open>Surrogates and white space\<close>

lemma paren_not_surrogate [simp]:
  "\<not> is_high LPAREN" "\<not> is_low LPAREN" "\<not> is_high RPAREN" "\<not> is_low RPAREN"
  by (simp_all add: is_high_def is_low_def LPAREN_def RPAREN_def)

lemma ws_not_surrogate: "is_ws x \<Longrightarrow> \<not> is_high x \<and> \<not> is_low x"
  unfolding is_ws_def is_high_def is_low_def
  by (elim disjE conjE) (simp_all, (unat_arith; fail)?)

lemma high_not_low: "is_high x \<Longrightarrow> \<not> is_low x"
  unfolding is_high_def is_low_def by unat_arith

subsection \<open>Trimming\<close>

lemma trim_ends: "trim t = [] \<or> (\<not> is_ws (hd (trim t)) \<and> \<not> is_ws (last (trim t)))"
proof -
  define d where "d = dropWhile is_ws t"
  define e where "e = dropWhile is_ws (rev d)"
  have t: "trim t = rev e" by (simp add: trim_def d_def e_def)
  show ?thesis
  proof (cases "e = []")
    case True
    then show ?thesis by (simp add: t)
  next
    case False
    then have hd_e: "\<not> is_ws (hd e)" unfolding e_def by (rule hd_dropWhile)
    from False have dne: "d \<noteq> []" by (auto simp: e_def)
    then have hd_d: "\<not> is_ws (hd d)" unfolding d_def by (rule hd_dropWhile)
    have "rev d = takeWhile is_ws (rev d) @ e" by (simp add: e_def)
    then have "last (rev d) = last e" using False by (metis last_appendR)
    then have "last e = hd d" using dne by (simp add: last_rev)
    with hd_e hd_d False show ?thesis by (simp add: t hd_rev last_rev)
  qed
qed

lemma trim_fixed: "t = [] \<or> (\<not> is_ws (hd t) \<and> \<not> is_ws (last t)) \<Longrightarrow> trim t = t"
proof (cases t)
  case Nil
  then show ?thesis by (simp add: trim_def)
next
  case (Cons x xs)
  assume "t = [] \<or> (\<not> is_ws (hd t) \<and> \<not> is_ws (last t))"
  with Cons have h: "\<not> is_ws x" and l: "\<not> is_ws (last t)" by auto
  have "dropWhile is_ws t = t" using h Cons by simp
  moreover have "dropWhile is_ws (rev t) = rev t"
  proof (cases "rev t")
    case Nil
    then show ?thesis by simp
  next
    case (Cons a as)
    have "hd (rev t) = last t" using \<open>t = x # xs\<close> by (simp add: hd_rev)
    with Cons l have "\<not> is_ws a" by simp
    with Cons show ?thesis by simp
  qed
  ultimately show ?thesis by (simp add: trim_def)
qed

lemma trim_trim: "trim (trim t) = trim t"
  by (rule trim_fixed) (rule trim_ends)

lemma trim_decomp: "\<exists>p q. t = p @ trim t @ q \<and> (\<forall>x \<in> set p. is_ws x) \<and> (\<forall>x \<in> set q. is_ws x)"
proof -
  define d where "d = dropWhile is_ws t"
  have 1: "t = takeWhile is_ws t @ d" by (simp add: d_def)
  have "d = rev (takeWhile is_ws (rev d) @ dropWhile is_ws (rev d))"
    by (simp only: takeWhile_dropWhile_id rev_rev_ident)
  also have "\<dots> = rev (dropWhile is_ws (rev d)) @ rev (takeWhile is_ws (rev d))"
    by (simp only: rev_append)
  finally have 2: "d = trim t @ rev (takeWhile is_ws (rev d))"
    by (simp only: trim_def d_def)
  have "t = takeWhile is_ws t @ trim t @ rev (takeWhile is_ws (rev d))"
    using 1 2 by simp
  moreover have "\<forall>x \<in> set (takeWhile is_ws t). is_ws x" by (auto dest: set_takeWhileD)
  moreover have "\<forall>x \<in> set (rev (takeWhile is_ws (rev d))). is_ws x" by (auto dest: set_takeWhileD)
  ultimately show ?thesis by blast
qed

lemma trim_snoc_ws: "is_ws w \<Longrightarrow> trim (c @ [w]) = trim c"
proof (cases "dropWhile is_ws c = []")
  case True
  assume w: "is_ws w"
  from True have "\<forall>x \<in> set c. is_ws x" by simp
  with w have a: "dropWhile is_ws (c @ [w]) = []" by simp
  show ?thesis unfolding trim_def by (simp only: a True)
next
  case False
  assume w: "is_ws w"
  from False obtain x where "x \<in> set c" "\<not> is_ws x" by auto
  then have "dropWhile is_ws (c @ [w]) = dropWhile is_ws c @ [w]" by (rule dropWhile_append1)
  then show ?thesis using w by (simp add: trim_def)
qed

subsection \<open>Parenthesised groups\<close>

lemma after_close_length: "after_close xs = Some r \<Longrightarrow> length r < length xs"
  by (induction xs) (auto split: if_splits)

lemma after_close_None: "after_close xs = None \<longleftrightarrow> RPAREN \<notin> set xs"
  by (induction xs) auto

lemma after_close_append: "RPAREN \<notin> set body \<Longrightarrow> after_close (body @ RPAREN # r) = Some r"
  by (induction body) auto

lemma after_close_set: "after_close xs = Some r \<Longrightarrow> set r \<subseteq> set xs"
  by (induction xs) (auto split: if_splits)

lemma remove_parens_set: "set (remove_parens s) \<subseteq> set s"
proof (induction s rule: remove_parens.induct)
  case 1
  show ?case by simp
next
  case (2 x xs)
  show ?case
  proof (cases "x = LPAREN \<and> after_close xs \<noteq> None")
    case True
    then obtain rest where r: "after_close xs = Some rest" by auto
    with 2 True have "set (remove_parens rest) \<subseteq> set rest" by simp
    also have "\<dots> \<subseteq> set xs" using r by (rule after_close_set)
    finally show ?thesis using True r by auto
  next
    case False
    with 2 show ?thesis by (auto split: option.splits)
  qed
qed

lemma no_group_remove_parens: "no_group (remove_parens s)"
proof (induction s rule: remove_parens.induct)
  case 1
  show ?case by simp
next
  case (2 x xs)
  show ?case
  proof (cases "x = LPAREN")
    case False
    with 2 show ?thesis by simp
  next
    case True
    show ?thesis
    proof (cases "after_close xs")
      case None
      then have "RPAREN \<notin> set (remove_parens xs)"
        using remove_parens_set [of xs] by (auto simp: after_close_None)
      with 2 True None show ?thesis by simp
    next
      case (Some rest)
      with 2 True show ?thesis by simp
    qed
  qed
qed

lemma remove_parens_fixed: "no_group s \<Longrightarrow> remove_parens s = s"
  by (induction s) (auto simp: after_close_None [symmetric])

lemma no_group_append: "no_group (xs @ ys) \<Longrightarrow> no_group xs \<and> no_group ys"
  by (induction xs) auto

lemma no_group_trim: "no_group t \<Longrightarrow> no_group (trim t)"
proof -
  assume a: "no_group t"
  obtain p q where "t = p @ trim t @ q" using trim_decomp by blast
  with a have "no_group (p @ trim t @ q)" by simp
  then show ?thesis by (blast dest: no_group_append)
qed

lemma remove_emoji_set: "set (remove_emoji s) \<subseteq> set s"
  by (induction s rule: remove_emoji.induct) auto

lemma no_group_remove_emoji: "no_group s \<Longrightarrow> no_group (remove_emoji s)"
proof (induction s rule: remove_emoji.induct)
  case (3 x y zs)
  then show ?case using remove_emoji_set [of zs] remove_emoji_set [of "y # zs"]
    by (auto split: if_splits)
qed simp_all

lemma remove_parens_prefix: "LPAREN \<notin> set c \<Longrightarrow> remove_parens (c @ t) = c @ remove_parens t"
  by (induction c) auto


subsection \<open>Surrogate pairs\<close>

lemma well_formed_Cons: "\<not> is_high x \<Longrightarrow> well_formed (x # xs) = (\<not> is_low x \<and> well_formed xs)"
  by (cases xs) auto

lemma well_formed_high: "is_high x \<Longrightarrow> well_formed (x # xs) = (\<exists>y zs. xs = y # zs \<and> is_low y \<and> well_formed zs)"
  by (cases xs) auto

lemma well_formed_prepend:
  "\<forall>c \<in> set p. \<not> is_high c \<and> \<not> is_low c \<Longrightarrow> well_formed (p @ s) = well_formed s"
  by (induction p) (auto simp: well_formed_Cons)

lemma well_formed_append:
  "\<forall>c \<in> set w. \<not> is_high c \<and> \<not> is_low c \<Longrightarrow> well_formed (p @ w) = well_formed p"
proof (induction p rule: well_formed.induct)
  case 1
  then show ?case using well_formed_prepend [of w "[]"] by simp
next
  case (2 x)
  then show ?case using well_formed_prepend [of w "[]"]
    by (cases w) (auto simp: well_formed_Cons)
next
  case (3 x y zs)
  then show ?case by auto
qed

lemma well_formed_trim: "well_formed t \<Longrightarrow> well_formed (trim t)"
proof -
  assume a: "well_formed t"
  obtain p q where t: "t = p @ trim t @ q" and p: "\<forall>x \<in> set p. is_ws x" and q: "\<forall>x \<in> set q. is_ws x"
    using trim_decomp by blast
  from a t have "well_formed (p @ trim t @ q)" by simp
  then have "well_formed (trim t @ q)" using p by (simp add: well_formed_prepend ws_not_surrogate)
  then show ?thesis using q by (simp add: well_formed_append ws_not_surrogate)
qed

lemma well_formed_after_close:
  "well_formed xs \<Longrightarrow> after_close xs = Some r \<Longrightarrow> well_formed r"
proof (induction xs rule: well_formed.induct)
  case (3 x y zs)
  then show ?case by (cases "is_high x") (auto split: if_splits)
qed (auto split: if_splits)

lemma well_formed_remove_parens: "well_formed s \<Longrightarrow> well_formed (remove_parens s)"
proof (induction s rule: length_induct)
  case (1 s)
  show ?case
  proof (cases s)
    case Nil
    then show ?thesis by simp
  next
    case (Cons x xs)
    show ?thesis
    proof (cases "is_high x")
      case True
      with 1(2) Cons obtain y zs where xs: "xs = y # zs" and y: "is_low y" and zs: "well_formed zs"
        by (auto simp: well_formed_high)
      from 1(1) zs Cons xs have "well_formed (remove_parens zs)" by simp
      moreover have "x \<noteq> LPAREN" "y \<noteq> LPAREN" using True y by auto
      ultimately show ?thesis using Cons xs True y by simp
    next
      case False
      with 1(2) Cons have x: "\<not> is_low x" and wxs: "well_formed xs" by (auto simp: well_formed_Cons)
      from 1(1) wxs Cons have ih: "well_formed (remove_parens xs)" by simp
      show ?thesis
      proof (cases "x = LPAREN \<and> after_close xs \<noteq> None")
        case True
        then obtain rest where r: "after_close xs = Some rest" by auto
        then have "length rest < length s" using Cons by (auto dest: after_close_length)
        moreover have "well_formed rest" using wxs r by (rule well_formed_after_close)
        ultimately have "well_formed (remove_parens rest)" using 1(1) by simp
        then show ?thesis using Cons True r by simp
      next
        case F: False
        then have "remove_parens s = x # remove_parens xs" using Cons by (auto split: option.splits)
        then show ?thesis using ih x False by (simp add: well_formed_Cons)
      qed
    qed
  qed
qed

lemma remove_emoji_Cons: "\<not> is_high x \<Longrightarrow> remove_emoji (x # t) = x # remove_emoji t"
  by (cases t) auto

lemma remove_emoji_prepend: "\<forall>c \<in> set p. \<not> is_high c \<Longrightarrow> remove_emoji (p @ s) = p @ remove_emoji s"
  by (induction p) (auto simp: remove_emoji_Cons)

lemma remove_emoji_append:
  "\<forall>c \<in> set w. \<not> is_high c \<and> \<not> is_low c \<Longrightarrow> remove_emoji (t @ w) = remove_emoji t @ w"
proof (induction t rule: remove_emoji.induct)
  case 1
  then show ?case using remove_emoji_prepend [of w "[]"] by simp
next
  case (2 x)
  then show ?case using remove_emoji_prepend [of w "[]"] by (cases w) auto
next
  case (3 x y zs)
  then show ?case by simp
qed

lemma emoji_free_trim: "remove_emoji t = t \<Longrightarrow> remove_emoji (trim t) = trim t"
proof -
  assume a: "remove_emoji t = t"
  obtain p q where t: "t = p @ trim t @ q" and p: "\<forall>x \<in> set p. is_ws x" and q: "\<forall>x \<in> set q. is_ws x"
    using trim_decomp by blast
  have "remove_emoji (p @ trim t @ q) = p @ remove_emoji (trim t @ q)"
    using p by (simp add: remove_emoji_prepend ws_not_surrogate)
  also have "\<dots> = p @ remove_emoji (trim t) @ q"
    using q by (simp add: remove_emoji_append ws_not_surrogate)
  finally have "remove_emoji t = p @ remove_emoji (trim t) @ q" using t by simp
  with a t have "p @ remove_emoji (trim t) @ q = p @ trim t @ q" by simp
  then show ?thesis by simp
qed

lemma remove_emoji_idem: "well_formed s \<Longrightarrow> remove_emoji (remove_emoji s) = remove_emoji s"
proof (induction s rule: remove_emoji.induct)
  case (3 x y zs)
  show ?case
  proof (cases "is_high x")
    case True
    with 3 show ?thesis by auto
  next
    case False
    with 3 show ?thesis by (auto simp: remove_emoji_Cons)
  qed
qed simp_all

lemma strip_fixed:
  "no_group r \<Longrightarrow> trim r = r \<Longrightarrow> remove_emoji r = r \<Longrightarrow> strip r = r"
  by (simp add: strip_def remove_parens_fixed)

lemma strip_no_group: "no_group (strip s)"
  unfolding strip_def
  by (intro no_group_trim no_group_remove_emoji no_group_remove_parens)

text \<open>
  Claim C4, amended. For every string without a lone surrogate, cleaning a cleaned title
  changes nothing: \<open>strip (strip s) = strip s\<close>.
\<close>

theorem strip_idempotent_well_formed:
  "well_formed s \<Longrightarrow> strip (strip s) = strip s"
proof (rule strip_fixed)
  assume wf: "well_formed s"
  show "no_group (strip s)" by (rule strip_no_group)
  show "trim (strip s) = strip s" by (simp add: strip_def trim_trim)
  have "well_formed (trim (remove_parens s))"
    using wf by (intro well_formed_trim well_formed_remove_parens)
  then have "remove_emoji (remove_emoji (trim (remove_parens s))) = remove_emoji (trim (remove_parens s))"
    by (rule remove_emoji_idem)
  then show "remove_emoji (strip s) = strip s"
    unfolding strip_def by (rule emoji_free_trim)
qed

text \<open>
  Claim C4 as stated, for every string, fails. In \<^verbatim>\<open>"\uD83C\uD83C\uDF00\uDF00"\<close>
  the first code unit is a high surrogate with no low surrogate after it, the next two are
  U+1F300, and the last is a low surrogate standing alone. The first cleaning removes
  U+1F300; the two code units that remain are U+1F300 again, and the second cleaning
  removes them.
\<close>

theorem strip_not_idempotent:
  "strip (strip [0xD83C, 0xD83C, 0xDF00, 0xDF00]) \<noteq> strip [0xD83C, 0xD83C, 0xDF00, 0xDF00]"
  by (simp add: strip_def trim_def LPAREN_def RPAREN_def is_high_def is_low_def is_emoji_def
      code_point_def is_ws_def)

text \<open>A title with a description in parentheses that ends in the emoji U+1F31E.\<close>

theorem strip_idempotent_well_formed_witness:
  "well_formed (js ''Standup (sunny, 18C) '' @ [0xD83C, 0xDF1E])
   \<and> strip (js ''Standup (sunny, 18C) '' @ [0xD83C, 0xDF1E]) = js ''Standup''
   \<and> strip (strip (js ''Standup (sunny, 18C) '' @ [0xD83C, 0xDF1E])) = strip (js ''Standup (sunny, 18C) '' @ [0xD83C, 0xDF1E])"
proof -
  have a: "well_formed (js ''Standup (sunny, 18C) '' @ [0xD83C, 0xDF1E])"
    by code_simp
  have b: "strip (js ''Standup (sunny, 18C) '' @ [0xD83C, 0xDF1E]) = js ''Standup''"
    by (simp add: strip_def trim_def js_def LPAREN_def RPAREN_def is_high_def is_low_def is_emoji_def
      code_point_def is_ws_def)
  from a b strip_idempotent_well_formed [OF a] show ?thesis by (intro conjI)
qed

lemma digit_not_rparen: "d < 10 \<Longrightarrow> digit d \<noteq> RPAREN"
proof
  assume d: "d < 10" and e: "digit d = RPAREN"
  have "unat (digit d) = (48 + d) mod 65536"
    unfolding digit_def by (subst unat_of_nat) simp
  moreover have "unat RPAREN = 41" by (simp add: RPAREN_def)
  ultimately have "(48 + d) mod 65536 = 41" using e by simp
  with d show False by simp
qed

lemma nat_digits_no_rparen: "RPAREN \<notin> set (nat_digits n)"
proof (induction n rule: nat_digits.induct)
  case (1 n)
  show ?case
  proof (cases "n < 10")
    case True
    then show ?thesis using digit_not_rparen [of n] by (auto simp: nat_digits.simps [of n])
  next
    case False
    then have "RPAREN \<notin> set (nat_digits (n div 10))" using 1 by simp
    moreover have "digit (n mod 10) \<noteq> RPAREN" by (rule digit_not_rparen) simp
    ultimately show ?thesis using False by (auto simp: nat_digits.simps [of n])
  qed
qed

lemma number_string_no_rparen: "RPAREN \<notin> set (number_string i)"
  by (simp add: number_string_def nat_digits_no_rparen) (simp add: RPAREN_def)

lemma strip_newTitle_group:
  assumes "LPAREN \<notin> set c" and "remove_emoji c = c" and "trim c = c" and "RPAREN \<notin> set body"
  shows "strip (newTitle c (LPAREN # body @ [RPAREN])) = c"
proof -
  have ws: "is_ws SPACE" by (simp add: is_ws_def SPACE_def)
  have "SPACE \<noteq> LPAREN" by (simp add: SPACE_def LPAREN_def)
  with assms(1) have "LPAREN \<notin> set (c @ [SPACE])" by simp
  then have "remove_parens ((c @ [SPACE]) @ LPAREN # body @ [RPAREN])
      = (c @ [SPACE]) @ remove_parens (LPAREN # body @ [RPAREN])"
    by (rule remove_parens_prefix)
  also have "remove_parens (LPAREN # body @ [RPAREN]) = []"
    using after_close_append [OF assms(4), of "[]"] by simp
  finally have "remove_parens (newTitle c (LPAREN # body @ [RPAREN])) = c @ [SPACE]"
    by (simp add: newTitle_def)
  then show ?thesis using assms(2,3) ws by (simp add: strip_def trim_snoc_ws)
qed

text \<open>
  Claim C1, amended. Let \<open>c\<close> be a title without parentheses, without emoji and without
  white space at its ends. Cleaning the title composed from \<open>c\<close> and a description
  gives \<open>c\<close> back, for the description of a condition text that holds no closing
  parenthesis with any temperature, and for both placeholders.
\<close>

theorem strip_newTitle_roundtrip:
  assumes "LPAREN \<notin> set c" and "RPAREN \<notin> set c" and "remove_emoji c = c" and "trim c = c"
    and "RPAREN \<notin> set condition"
  shows "strip (newTitle c (describe condition tempC)) = c
       \<and> strip (newTitle c forecast_unavailable) = c
       \<and> strip (newTitle c weather_unavailable) = c"
proof (intro conjI)
  have "RPAREN \<notin> set (condition @ js '', '' @ number_string (Math_round tempC) @ [0xB0, 0x43])"
    using assms(5) number_string_no_rparen by (simp add: js_def RPAREN_def)
  then have "strip (newTitle c (LPAREN # (condition @ js '', '' @ number_string (Math_round tempC) @ [0xB0, 0x43]) @ [RPAREN])) = c"
    by (rule strip_newTitle_group [OF assms(1,3,4)])
  then show "strip (newTitle c (describe condition tempC)) = c" by (simp add: describe_def)
next
  have e: "forecast_unavailable = LPAREN # js ''forecast unavailable'' @ [RPAREN]"
    by (simp add: forecast_unavailable_def js_def LPAREN_def RPAREN_def)
  have "RPAREN \<notin> set (js ''forecast unavailable'')" by (simp add: js_def RPAREN_def)
  then show "strip (newTitle c forecast_unavailable) = c"
    unfolding e by (rule strip_newTitle_group [OF assms(1,3,4)])
next
  have e: "weather_unavailable = LPAREN # js ''weather unavailable'' @ [RPAREN]"
    by (simp add: weather_unavailable_def js_def LPAREN_def RPAREN_def)
  have "RPAREN \<notin> set (js ''weather unavailable'')" by (simp add: js_def RPAREN_def)
  then show "strip (newTitle c weather_unavailable) = c"
    unfolding e by (rule strip_newTitle_group [OF assms(1,3,4)])
qed

text \<open>The title \<^verbatim>\<open>Standup\<close> with \<^verbatim>\<open>cloudy\<close> at 19.5 degrees.\<close>

theorem strip_newTitle_roundtrip_witness:
  "LPAREN \<notin> set (js ''Standup'') \<and> RPAREN \<notin> set (js ''Standup'')
   \<and> remove_emoji (js ''Standup'') = js ''Standup'' \<and> trim (js ''Standup'') = js ''Standup''
   \<and> RPAREN \<notin> set (js ''cloudy'')
   \<and> strip (newTitle (js ''Standup'') (describe (js ''cloudy'') (39 / 2))) = js ''Standup''
   \<and> newTitle (js ''Standup'') (describe (js ''cloudy'') (39 / 2)) = js ''Standup (cloudy, 20'' @ [0xB0] @ js ''C)''"
proof -
  have a: "LPAREN \<notin> set (js ''Standup'')" "RPAREN \<notin> set (js ''Standup'')"
    "RPAREN \<notin> set (js ''cloudy'')"
    by code_simp+
  have b: "remove_emoji (js ''Standup'') = js ''Standup''"
    by code_simp
  have c: "trim (js ''Standup'') = js ''Standup''"
    by code_simp
  have d: "newTitle (js ''Standup'') (describe (js ''cloudy'') (39 / 2)) = js ''Standup (cloudy, 20'' @ [0xB0] @ js ''C)''"
    by code_simp
  from strip_newTitle_roundtrip [OF a(1) a(2) b c a(3), of "39 / 2"]
  have "strip (newTitle (js ''Standup'') (describe (js ''cloudy'') (39 / 2))) = js ''Standup''"
    by (rule conjunct1)
  with a b c d show ?thesis by (intro conjI)
qed

text \<open>
  Claim C1 as stated, for every descriptor, fails for the condition text \<^verbatim>\<open>a)b\<close>: the
  pattern removes \<^verbatim>\<open>(a)\<close> only, and the rest of the description stays in the title.
\<close>

theorem strip_newTitle_closing_paren:
  "strip (newTitle (js ''Standup'') (describe (js ''a)b'') 20)) \<noteq> js ''Standup''"
  by code_simp

section \<open>The synchronisation cycle\<close>

subsection \<open>What the steps leave alone\<close>

lemma patches_append: "patches (xs @ ys) = patches xs @ patches ys"
  by (induction xs rule: patches.induct) simp_all

lemma getWeatherInfo_token: "lastSyncToken (snd (getWeatherInfo e d st)) = lastSyncToken st"
  by (simp add: getWeatherInfo_def new_Date_def interact_def console_error_def Let_def
      split: option.splits list.splits)

lemma getWeatherInfo_patches: "patches (trace (snd (getWeatherInfo e d st))) = patches (trace st)"
  by (simp add: getWeatherInfo_def new_Date_def interact_def console_error_def Let_def
      patches_append split: option.splits list.splits)

lemma process_event_token: "lastSyncToken (snd (process_event e tmax ev st)) = lastSyncToken st"
proof (cases "start ev")
  case None
  then show ?thesis by (simp add: process_event_def)
next
  case (Some d)
  obtain desc st1 where w: "getWeatherInfo e d st = (desc, st1)"
    by (cases "getWeatherInfo e d st")
  then have "lastSyncToken st1 = lastSyncToken st"
    using getWeatherInfo_token [of e d st] by simp
  with Some w show ?thesis
    by (simp add: process_event_def interact_def Let_def split: option.splits)
qed

lemma process_events_token:
  "lastSyncToken (snd (process_events e tmax evs st)) = lastSyncToken st"
proof (induction evs arbitrary: st)
  case Nil
  show ?case by simp
next
  case (Cons ev evs)
  obtain r st' where step: "process_event e tmax ev st = (r, st')"
    by (cases "process_event e tmax ev st")
  then have tok: "lastSyncToken st' = lastSyncToken st"
    using process_event_token [of e tmax ev st] by simp
  show ?case
  proof (cases r)
    case None
    with step Cons [of st'] tok show ?thesis by simp
  next
    case (Some err)
    with step tok show ?thesis by simp
  qed
qed

subsection \<open>The request\<close>

lemma fetch_eq:
  "fetch e tok st =
     (events_list e (tick st + 2)
        (listParams tok (clock e (tick st)) (clock e (Suc (tick st)) + 7 * ms_per_day)),
      st\<lparr>tick := tick st + 3,
         trace := trace st @
           [ListCall (listParams tok (clock e (tick st)) (clock e (Suc (tick st)) + 7 * ms_per_day))]\<rparr>)"
  by (simp add: fetch_def bounds_def new_Date_def interact_def Let_def)

lemma bounds_tmax: "snd (fst (bounds e st)) = clock e (Suc (tick st)) + 7 * ms_per_day"
  by (simp add: bounds_def new_Date_def Let_def)


lemma try_block_fetch_error:
  "fetch e tok st = (Inl err, st') \<Longrightarrow> try_block e tok st = (Some err, st')"
  by (simp add: try_block_def)

lemma completed_fst: "fst (completed e r) = fst r"
  by (cases r) (simp add: completed_def split: option.splits)

lemma completed_token: "lastSyncToken (snd (completed e r)) = lastSyncToken (snd r)"
  by (cases r) (simp add: completed_def new_Date_def split: option.splits)


lemma completed_error: "completed e (Some err, st) = (Some err, st)"
  by (simp add: completed_def)

lemma try_block_no_events:
  "fetch e tok st = (Inr res, st') \<Longrightarrow> items res = None \<or> items res = Some [] \<Longrightarrow>
   try_block e tok st = (None, st'\<lparr>lastSyncToken := nextSyncToken res\<rparr>)"
  by (auto simp: try_block_def Let_def)

lemma try_block_events:
  "fetch e tok st = (Inr res, st') \<Longrightarrow> items res = Some evs \<Longrightarrow> evs \<noteq> [] \<Longrightarrow>
   try_block e tok st =
     completed e (process_events e (snd (fst (bounds e st))) evs
       (st'\<lparr>lastSyncToken := nextSyncToken res\<rparr>))"
  by (simp add: try_block_def Let_def)

lemma try_block_token:
  "fetch e tok st = (Inr res, st') \<Longrightarrow> lastSyncToken (snd (try_block e tok st)) = nextSyncToken res"
  by (simp add: try_block_def Let_def completed_token process_events_token split: option.splits)



lemma cycle_returns:
  "try_block e tok st = (None, st') \<Longrightarrow> updateCalendarEvents (Suc depth) e tok st = Some st'"
  by simp

lemma cycle_logs:
  "try_block e tok st = (Some err, st') \<Longrightarrow> err \<noteq> HttpError 410 \<Longrightarrow>
   updateCalendarEvents (Suc depth) e tok st = Some (console_error (ErrorLogged err) st')"
  by simp

lemma cycle_retries:
  "try_block e tok st = (Some (HttpError 410), st') \<Longrightarrow>
   updateCalendarEvents (Suc depth) e tok st =
     updateCalendarEvents depth e None (st'\<lparr>lastSyncToken := None\<rparr>)"
  by simp

subsection \<open>The loop over the events\<close>

lemma process_events_append:
  "process_events e tmax pre st = (None, st1) \<Longrightarrow>
   process_events e tmax (pre @ post) st = process_events e tmax post st1"
proof (induction pre arbitrary: st)
  case Nil
  then show ?case by simp
next
  case (Cons ev pre)
  obtain r st' where step: "process_event e tmax ev st = (r, st')"
    by (cases "process_event e tmax ev st")
  with Cons.prems have "r = None" by (cases r) simp_all
  with step Cons show ?case by simp
qed

lemma process_events_stop:
  "process_events e tmax pre st = (None, st1) \<Longrightarrow>
   process_event e tmax ev st1 = (Some err, st2) \<Longrightarrow>
   process_events e tmax (pre @ ev # post) st = (Some err, st2)"
  by (simp add: process_events_append)

lemma process_event_skip:
  "start ev = Some d \<Longrightarrow> d > tmax \<Longrightarrow> process_event e tmax ev st = (None, st)"
  by (simp add: process_event_def)

lemma process_events_filter:
  "process_events e tmax evs st =
   process_events e tmax
     (filter (\<lambda>ev. case start ev of None \<Rightarrow> True | Some d \<Rightarrow> \<not> d > tmax) evs) st"
proof (induction evs arbitrary: st)
  case Nil
  show ?case by simp
next
  case (Cons ev evs)
  show ?case
  proof (cases "case start ev of None \<Rightarrow> True | Some d \<Rightarrow> \<not> d > tmax")
    case True
    then show ?thesis using Cons by (simp split: prod.splits option.splits)
  next
    case False
    then obtain d where "start ev = Some d" "d > tmax" by (auto split: option.splits)
    then have "process_event e tmax ev st = (None, st)" by (rule process_event_skip)
    with False Cons show ?thesis by simp
  qed
qed

lemma daysDifference_far:
  "daysDifference eventDate now > 14 \<longleftrightarrow> eventDate - now > 14 * ms_per_day"
proof -
  have "(now - eventDate) div 86400000 < -14 \<longleftrightarrow> now - eventDate < -14 * 86400000"
    by linarith
  then show ?thesis by (simp add: daysDifference_def ms_per_day_def) linarith
qed

subsection \<open>What a cycle adds to the trace\<close>






section \<open>The claims about the cycle\<close>

text \<open>
  Claim C2, amended. Let the request succeed with the events \<open>pre @ ev # post\<close>, let the
  events of \<open>pre\<close> be processed without an error, and let the patch of \<open>ev\<close> fail with an
  error other than status 410. Then the cycle ends there: the error is logged and the
  cycle returns in the state the failed patch left, whatever \<open>post\<close> holds. No event of
  \<open>post\<close> is looked at, and nothing is counted.
\<close>

theorem patch_failure_ends_cycle:
  assumes "fetch e tok st = (Inr res, st')"
    and "items res = Some (pre @ ev # post)"
    and "process_events e (snd (fst (bounds e st))) pre (st'\<lparr>lastSyncToken := nextSyncToken res\<rparr>)
           = (None, st1)"
    and "start ev = Some d \<and> \<not> d > snd (fst (bounds e st)) \<and> summary ev = Some title"
    and "getWeatherInfo e d st1 = (desc, st2)"
    and "newTitle (strip title) desc \<noteq> title"
    and "events_patch e (tick st2) (ev_id ev) (newTitle (strip title) desc) = Some err"
    and "err \<noteq> HttpError 410"
  shows "updateCalendarEvents (Suc depth) e tok st =
           Some (console_error (ErrorLogged err)
                  (interact (PatchCall (ev_id ev) (newTitle (strip title) desc)) st2))"
proof -
  let ?st3 = "interact (PatchCall (ev_id ev) (newTitle (strip title) desc)) st2"
  have step: "process_event e (snd (fst (bounds e st))) ev st1 = (Some err, ?st3)"
    using assms(4-7) by (simp add: process_event_def)
  have "process_events e (snd (fst (bounds e st))) (pre @ ev # post)
        (st'\<lparr>lastSyncToken := nextSyncToken res\<rparr>) = (Some err, ?st3)"
    using assms(3) step by (rule process_events_stop)
  moreover have "try_block e tok st =
      completed e (process_events e (snd (fst (bounds e st))) (pre @ ev # post)
        (st'\<lparr>lastSyncToken := nextSyncToken res\<rparr>))"
    using assms(1,2) by (simp add: try_block_events)
  ultimately have "try_block e tok st = (Some err, ?st3)"
    by (simp only: completed_error)
  then show ?thesis using assms(8) by (rule cycle_logs)
qed

text \<open>
  Claim C2 as stated fails. The request returns two events; the patch of the first fails
  with status 500. The cycle logs the error and returns: no forecast is asked for the
  second event, and it is not patched.
\<close>

theorem patch_failure_stops_loop:
  "updateCalendarEvents 1 world_patch_500 None st0 =
     Some \<lparr>lastSyncToken = Some (js ''T1''), tick = 6,
           trace = [ListCall \<lparr>timeMin = Some 0, timeMax = Some 604801000, syncToken = None\<rparr>,
                    ForecastCall 2,
                    PatchCall (js ''e1'') (js ''Standup '' @ cloudy_20),
                    ErrorLogged (HttpError 500)]\<rparr>"
  by code_simp

text \<open>Three events; the patch of the second fails with status 500.\<close>

theorem patch_failure_ends_cycle_witness:
  "fetch world_patch_500_second None st0 =
     (Inr \<lparr>items = Some [standup, lunch, decorated], nextSyncToken = Some (js ''T1'')\<rparr>,
      \<lparr>lastSyncToken = None, tick = 3,
       trace = [ListCall \<lparr>timeMin = Some 0, timeMax = Some 604801000, syncToken = None\<rparr>]\<rparr>)
   \<and> events_patch world_patch_500_second 8 (ev_id lunch) (newTitle (strip (js ''Lunch'')) cloudy_20)
       = Some (HttpError 500)
   \<and> updateCalendarEvents (Suc 0) world_patch_500_second None st0 =
       Some \<lparr>lastSyncToken = Some (js ''T1''), tick = 9,
             trace = [ListCall \<lparr>timeMin = Some 0, timeMax = Some 604801000, syncToken = None\<rparr>,
                      ForecastCall 2,
                      PatchCall (js ''e1'') (js ''Standup '' @ cloudy_20),
                      ForecastCall 2,
                      PatchCall (js ''e2'') (js ''Lunch '' @ cloudy_20),
                      ErrorLogged (HttpError 500)]\<rparr>"
proof -
  let ?w = world_patch_500_second
  let ?res = "\<lparr>items = Some [standup, lunch, decorated], nextSyncToken = Some (js ''T1'')\<rparr>"
  let ?st' = "\<lparr>lastSyncToken = None, tick = 3,
       trace = [ListCall \<lparr>timeMin = Some 0, timeMax = Some 604801000, syncToken = None\<rparr>]\<rparr>"
  let ?st1 = "\<lparr>lastSyncToken = Some (js ''T1''), tick = 6,
       trace = [ListCall \<lparr>timeMin = Some 0, timeMax = Some 604801000, syncToken = None\<rparr>,
                ForecastCall 2, PatchCall (js ''e1'') (js ''Standup '' @ cloudy_20)]\<rparr>"
  let ?st2 = "\<lparr>lastSyncToken = Some (js ''T1''), tick = 8,
       trace = [ListCall \<lparr>timeMin = Some 0, timeMax = Some 604801000, syncToken = None\<rparr>,
                ForecastCall 2, PatchCall (js ''e1'') (js ''Standup '' @ cloudy_20),
                ForecastCall 2]\<rparr>"
  have h1: "fetch ?w None st0 = (Inr ?res, ?st')" by code_simp
  have h2: "items ?res = Some ([standup] @ lunch # [decorated])" by simp
  have h3: "process_events ?w (snd (fst (bounds ?w st0))) [standup]
      (?st'\<lparr>lastSyncToken := nextSyncToken ?res\<rparr>) = (None, ?st1)"
    by code_simp
  have h4: "start lunch = Some 7200000 \<and> \<not> 7200000 > snd (fst (bounds ?w st0))
      \<and> summary lunch = Some (js ''Lunch'')"
    by code_simp
  have h5: "getWeatherInfo ?w 7200000 ?st1 = (cloudy_20, ?st2)" by code_simp
  have h6: "newTitle (strip (js ''Lunch'')) cloudy_20 \<noteq> js ''Lunch''" by code_simp
  have t: "tick ?st2 = 8" by simp
  have h7: "events_patch ?w 8 (ev_id lunch) (newTitle (strip (js ''Lunch'')) cloudy_20)
      = Some (HttpError 500)"
    by code_simp
  have h7': "events_patch ?w (tick ?st2) (ev_id lunch) (newTitle (strip (js ''Lunch'')) cloudy_20)
      = Some (HttpError 500)"
    by (simp only: t h7)
  have h8: "HttpError 500 \<noteq> HttpError 410" by simp
  have r: "console_error (ErrorLogged (HttpError 500))
        (interact (PatchCall (ev_id lunch) (newTitle (strip (js ''Lunch'')) cloudy_20)) ?st2) =
      \<lparr>lastSyncToken = Some (js ''T1''), tick = 9,
             trace = [ListCall \<lparr>timeMin = Some 0, timeMax = Some 604801000, syncToken = None\<rparr>,
                      ForecastCall 2,
                      PatchCall (js ''e1'') (js ''Standup '' @ cloudy_20),
                      ForecastCall 2,
                      PatchCall (js ''e2'') (js ''Lunch '' @ cloudy_20),
                      ErrorLogged (HttpError 500)]\<rparr>"
    by code_simp
  from patch_failure_ends_cycle [OF h1 h2 h3 h4 h5 h6 h7' h8, of 0]
  have "updateCalendarEvents (Suc 0) ?w None st0 =
       Some \<lparr>lastSyncToken = Some (js ''T1''), tick = 9,
             trace = [ListCall \<lparr>timeMin = Some 0, timeMax = Some 604801000, syncToken = None\<rparr>,
                      ForecastCall 2,
                      PatchCall (js ''e1'') (js ''Standup '' @ cloudy_20),
                      ForecastCall 2,
                      PatchCall (js ''e2'') (js ''Lunch '' @ cloudy_20),
                      ErrorLogged (HttpError 500)]\<rparr>"
    by (simp only: r)
  with h1 h7 show ?thesis by (intro conjI)
qed

text \<open>
  Claim C3, amended. When the request fails with status 410, the token is cleared and the
  cycle is the cycle started again without a token from that state. Its request carries
  both time bounds and no token. If that request succeeds, the token is the one of its
  response when its \<^verbatim>\<open>try\<close> block ends, and when the cycle ends unless a step of the loop
  threw status 410. If that request fails with another error, the error is logged and the
  cycle returns.
\<close>

theorem invalidation_clears_token_and_retries:
  assumes "fetch e tok st = (Inl (HttpError 410), st')"
  shows "let st1 = st'\<lparr>lastSyncToken := None\<rparr> in
         updateCalendarEvents (Suc depth) e tok st = updateCalendarEvents depth e None st1
       \<and> fst (fetch e None st1) =
           events_list e (tick st1 + 2)
             \<lparr>timeMin = Some (clock e (tick st1)),
              timeMax = Some (clock e (Suc (tick st1)) + 7 * ms_per_day),
              syncToken = None\<rparr>
       \<and> (\<forall>res st2. fetch e None st1 = (Inr res, st2) \<longrightarrow>
            lastSyncToken (snd (try_block e None st1)) = nextSyncToken res
            \<and> (fst (try_block e None st1) \<noteq> Some (HttpError 410) \<longrightarrow>
                 (\<exists>st3. updateCalendarEvents (Suc (Suc depth)) e tok st = Some st3
                       \<and> lastSyncToken st3 = nextSyncToken res)))
       \<and> (\<forall>err st2. fetch e None st1 = (Inl err, st2) \<and> err \<noteq> HttpError 410 \<longrightarrow>
            updateCalendarEvents (Suc (Suc depth)) e tok st =
              Some (console_error (ErrorLogged err) st2))"
proof -
  define st1 where "st1 = st'\<lparr>lastSyncToken := None\<rparr>"
  have tb: "try_block e tok st = (Some (HttpError 410), st')"
    using assms by (rule try_block_fetch_error)
  have retry: "updateCalendarEvents (Suc d) e tok st = updateCalendarEvents d e None st1" for d
    unfolding st1_def using tb by (rule cycle_retries)
  have params: "fst (fetch e None st1) =
      events_list e (tick st1 + 2)
        \<lparr>timeMin = Some (clock e (tick st1)),
         timeMax = Some (clock e (Suc (tick st1)) + 7 * ms_per_day),
         syncToken = None\<rparr>"
    by (simp add: fetch_eq listParams_def truthy_def)
  have ok: "lastSyncToken (snd (try_block e None st1)) = nextSyncToken res
          \<and> (fst (try_block e None st1) \<noteq> Some (HttpError 410) \<longrightarrow>
               (\<exists>st3. updateCalendarEvents (Suc (Suc depth)) e tok st = Some st3
                     \<and> lastSyncToken st3 = nextSyncToken res))"
    if f: "fetch e None st1 = (Inr res, st2)" for res st2
  proof (intro conjI impI)
    show tok: "lastSyncToken (snd (try_block e None st1)) = nextSyncToken res"
      using f by (rule try_block_token)
    assume no410: "fst (try_block e None st1) \<noteq> Some (HttpError 410)"
    obtain r st3 where tb1: "try_block e None st1 = (r, st3)" by (cases "try_block e None st1")
    with tok have t3: "lastSyncToken st3 = nextSyncToken res" by simp
    show "\<exists>st3. updateCalendarEvents (Suc (Suc depth)) e tok st = Some st3
               \<and> lastSyncToken st3 = nextSyncToken res"
    proof (cases r)
      case None
      with tb1 have "updateCalendarEvents (Suc depth) e None st1 = Some st3" by simp
      then have "updateCalendarEvents (Suc (Suc depth)) e tok st = Some st3"
        by (simp only: retry)
      with t3 show ?thesis by blast
    next
      case (Some err)
      with tb1 no410 have "err \<noteq> HttpError 410" by simp
      with tb1 Some have "updateCalendarEvents (Suc depth) e None st1 =
          Some (console_error (ErrorLogged err) st3)"
        by simp
      then have "updateCalendarEvents (Suc (Suc depth)) e tok st =
          Some (console_error (ErrorLogged err) st3)"
        by (simp only: retry)
      moreover have "lastSyncToken (console_error (ErrorLogged err) st3) = nextSyncToken res"
        using t3 by (simp add: console_error_def)
      ultimately show ?thesis by blast
    qed
  qed
  have bad: "updateCalendarEvents (Suc (Suc depth)) e tok st =
        Some (console_error (ErrorLogged err) st2)"
    if f: "fetch e None st1 = (Inl err, st2)" and ne: "err \<noteq> HttpError 410" for err st2
  proof -
    have "try_block e None st1 = (Some err, st2)" using f by (rule try_block_fetch_error)
    then have "updateCalendarEvents (Suc depth) e None st1 =
        Some (console_error (ErrorLogged err) st2)"
      using ne by (rule cycle_logs)
    then show ?thesis by (simp only: retry)
  qed
  show ?thesis
    unfolding Let_def st1_def [symmetric]
    using retry [of depth] params ok bad by blast
qed

text \<open>
  Claim C3 as stated fails when the request of the retry is answered with status 410 too.
  The cycle starts with the token \<^verbatim>\<open>T0\<close>; the first and the second request fail with
  status 410 and the third succeeds. The cycle sends three requests, the last two of them
  retries, and two calls of the function do not suffice to describe it.
\<close>

theorem two_retries_in_one_cycle:
  "updateCalendarEvents 3 world_gone_twice (Some (js ''T0'')) st_T0 =
     Some \<lparr>lastSyncToken = Some (js ''T2''), tick = 9,
           trace = [ListCall \<lparr>timeMin = None, timeMax = None, syncToken = Some (js ''T0'')\<rparr>,
                    ListCall \<lparr>timeMin = Some 3000, timeMax = Some 604804000, syncToken = None\<rparr>,
                    ListCall \<lparr>timeMin = Some 6000, timeMax = Some 604807000, syncToken = None\<rparr>]\<rparr>
   \<and> updateCalendarEvents 2 world_gone_twice (Some (js ''T0'')) st_T0 = None"
  by code_simp

text \<open>
  The first request fails with status 410. In one world the second request returns an
  event and the token \<^verbatim>\<open>T2\<close>; in the other it fails with status 503.
\<close>

theorem invalidation_clears_token_and_retries_witness:
  "fetch world_gone_once (Some (js ''T0'')) st_T0 =
     (Inl (HttpError 410),
      \<lparr>lastSyncToken = Some (js ''T0''), tick = 3,
       trace = [ListCall \<lparr>timeMin = None, timeMax = None, syncToken = Some (js ''T0'')\<rparr>]\<rparr>)
   \<and> fst (fetch world_gone_once None
        \<lparr>lastSyncToken = None, tick = 3,
         trace = [ListCall \<lparr>timeMin = None, timeMax = None, syncToken = Some (js ''T0'')\<rparr>]\<rparr>) =
       Inr \<lparr>items = Some [standup], nextSyncToken = Some (js ''T2'')\<rparr>
   \<and> (\<exists>st3. updateCalendarEvents (Suc (Suc 0)) world_gone_once (Some (js ''T0'')) st_T0 = Some st3
            \<and> lastSyncToken st3 = Some (js ''T2''))
   \<and> fetch world_gone_then_down (Some (js ''T0'')) st_T0 =
     (Inl (HttpError 410),
      \<lparr>lastSyncToken = Some (js ''T0''), tick = 3,
       trace = [ListCall \<lparr>timeMin = None, timeMax = None, syncToken = Some (js ''T0'')\<rparr>]\<rparr>)
   \<and> updateCalendarEvents (Suc (Suc 0)) world_gone_then_down (Some (js ''T0'')) st_T0 =
       Some \<lparr>lastSyncToken = None, tick = 6,
             trace = [ListCall \<lparr>timeMin = None, timeMax = None, syncToken = Some (js ''T0'')\<rparr>,
                      ListCall \<lparr>timeMin = Some 3000, timeMax = Some 604804000, syncToken = None\<rparr>,
                      ErrorLogged (HttpError 503)]\<rparr>"
proof -
  let ?sent = "\<lparr>lastSyncToken = Some (js ''T0''), tick = 3,
       trace = [ListCall \<lparr>timeMin = None, timeMax = None, syncToken = Some (js ''T0'')\<rparr>]\<rparr>"
  let ?cleared = "\<lparr>lastSyncToken = None, tick = 3,
       trace = [ListCall \<lparr>timeMin = None, timeMax = None, syncToken = Some (js ''T0'')\<rparr>]\<rparr>"
  let ?again = "\<lparr>lastSyncToken = None, tick = 6,
       trace = [ListCall \<lparr>timeMin = None, timeMax = None, syncToken = Some (js ''T0'')\<rparr>,
                ListCall \<lparr>timeMin = Some 3000, timeMax = Some 604804000, syncToken = None\<rparr>]\<rparr>"
  let ?res = "\<lparr>items = Some [standup], nextSyncToken = Some (js ''T2'')\<rparr>"
  have c: "?sent\<lparr>lastSyncToken := None\<rparr> = ?cleared" by simp
  have h1: "fetch world_gone_once (Some (js ''T0'')) st_T0 = (Inl (HttpError 410), ?sent)"
    by code_simp
  have h2: "fetch world_gone_once None ?cleared = (Inr ?res, ?again)"
    by code_simp
  have h3: "fst (try_block world_gone_once None ?cleared) \<noteq> Some (HttpError 410)"
    by code_simp
  have n: "nextSyncToken ?res = Some (js ''T2'')" by simp
  note t1 = invalidation_clears_token_and_retries [OF h1, of 0, unfolded Let_def c]
  from t1 h2 h3 have a: "\<exists>st3. updateCalendarEvents (Suc (Suc 0)) world_gone_once (Some (js ''T0'')) st_T0 = Some st3
            \<and> lastSyncToken st3 = nextSyncToken ?res"
    by blast
  have k1: "fetch world_gone_then_down (Some (js ''T0'')) st_T0 = (Inl (HttpError 410), ?sent)"
    by code_simp
  have k2: "fetch world_gone_then_down None ?cleared = (Inl (HttpError 503), ?again)"
    by code_simp
  have k3: "HttpError 503 \<noteq> HttpError 410" by simp
  have k4: "console_error (ErrorLogged (HttpError 503)) ?again =
       \<lparr>lastSyncToken = None, tick = 6,
             trace = [ListCall \<lparr>timeMin = None, timeMax = None, syncToken = Some (js ''T0'')\<rparr>,
                      ListCall \<lparr>timeMin = Some 3000, timeMax = Some 604804000, syncToken = None\<rparr>,
                      ErrorLogged (HttpError 503)]\<rparr>"
    by (simp add: console_error_def)
  note t2 = invalidation_clears_token_and_retries [OF k1, of 0, unfolded Let_def c]
  from t2 k2 k3 have "updateCalendarEvents (Suc (Suc 0)) world_gone_then_down (Some (js ''T0'')) st_T0 =
      Some (console_error (ErrorLogged (HttpError 503)) ?again)"
    by blast
  then have b: "updateCalendarEvents (Suc (Suc 0)) world_gone_then_down (Some (js ''T0'')) st_T0 =
       Some \<lparr>lastSyncToken = None, tick = 6,
             trace = [ListCall \<lparr>timeMin = None, timeMax = None, syncToken = Some (js ''T0'')\<rparr>,
                      ListCall \<lparr>timeMin = Some 3000, timeMax = Some 604804000, syncToken = None\<rparr>,
                      ErrorLogged (HttpError 503)]\<rparr>"
    by (simp only: k4)
  have h2': "fst (fetch world_gone_once None ?cleared) = Inr ?res" using h2 by simp
  from h1 h2' a [unfolded n] k1 b show ?thesis by (intro conjI)
qed

text \<open>
  Claim C5, amended. When the request succeeds, the token is the one of the response when
  the \<^verbatim>\<open>try\<close> block ends, whether it completes or throws and however many events came.
  With no events the cycle returns at once, with that token and nothing done but the
  request. The token is still that of the response when the cycle ends, unless a step of
  the loop threw status 410.
\<close>

theorem token_captured_on_fetch_success:
  assumes "fetch e tok st = (Inr res, st')"
  shows "lastSyncToken (snd (try_block e tok st)) = nextSyncToken res
       \<and> (items res = None \<or> items res = Some [] \<longrightarrow>
            updateCalendarEvents (Suc depth) e tok st = Some (st'\<lparr>lastSyncToken := nextSyncToken res\<rparr>)
            \<and> trace st' =
                trace st @
                [ListCall (listParams tok (clock e (tick st)) (clock e (Suc (tick st)) + 7 * ms_per_day))])
       \<and> (fst (try_block e tok st) \<noteq> Some (HttpError 410) \<longrightarrow>
            (\<exists>st''. updateCalendarEvents (Suc depth) e tok st = Some st''
                   \<and> lastSyncToken st'' = nextSyncToken res))"
proof (intro conjI impI)
  show tok: "lastSyncToken (snd (try_block e tok st)) = nextSyncToken res"
    using assms by (rule try_block_token)
  {
    assume "items res = None \<or> items res = Some []"
    with assms have "try_block e tok st = (None, st'\<lparr>lastSyncToken := nextSyncToken res\<rparr>)"
      by (rule try_block_no_events)
    then show "updateCalendarEvents (Suc depth) e tok st = Some (st'\<lparr>lastSyncToken := nextSyncToken res\<rparr>)"
      by (rule cycle_returns)
    from assms have "st' = snd (fetch e tok st)" by simp
    then show "trace st' =
        trace st @
        [ListCall (listParams tok (clock e (tick st)) (clock e (Suc (tick st)) + 7 * ms_per_day))]"
      by (simp add: fetch_eq)
  }
  {
    assume no410: "fst (try_block e tok st) \<noteq> Some (HttpError 410)"
    obtain r st1 where tb: "try_block e tok st = (r, st1)" by (cases "try_block e tok st")
    with tok have t1: "lastSyncToken st1 = nextSyncToken res" by simp
    show "\<exists>st''. updateCalendarEvents (Suc depth) e tok st = Some st''
                 \<and> lastSyncToken st'' = nextSyncToken res"
    proof (cases r)
      case None
      with tb t1 show ?thesis by simp
    next
      case (Some err)
      with tb no410 have "err \<noteq> HttpError 410" by simp
      with tb Some t1 show ?thesis by (simp add: console_error_def)
    qed
  }
qed

text \<open>
  Claim C5 as stated fails when a patch is answered with status 410. The request succeeds
  and returns the token \<^verbatim>\<open>T1\<close> with one event; the patch of the event fails with status
  410; the handler clears the token and starts the cycle again, whose request fails with
  status 500. The cycle ends with no token.
\<close>

theorem token_cleared_by_patch_410:
  "fst (fetch world_patch_gone None st0) =
     Inr \<lparr>items = Some [standup], nextSyncToken = Some (js ''T1'')\<rparr>
   \<and> updateCalendarEvents 2 world_patch_gone None st0 =
       Some \<lparr>lastSyncToken = None, tick = 9,
             trace = [ListCall \<lparr>timeMin = Some 0, timeMax = Some 604801000, syncToken = None\<rparr>,
                      ForecastCall 2,
                      PatchCall (js ''e1'') (js ''Standup '' @ cloudy_20),
                      ListCall \<lparr>timeMin = Some 6000, timeMax = Some 604807000, syncToken = None\<rparr>,
                      ErrorLogged (HttpError 500)]\<rparr>"
  by code_simp

text \<open>A request that returns two events and the token \<^verbatim>\<open>T1\<close>; then one that returns
  no event and an empty token.\<close>

theorem token_captured_on_fetch_success_witness:
  "fetch world_ok None st0 =
     (Inr \<lparr>items = Some [standup, lunch], nextSyncToken = Some (js ''T1'')\<rparr>,
      \<lparr>lastSyncToken = None, tick = 3,
       trace = [ListCall \<lparr>timeMin = Some 0, timeMax = Some 604801000, syncToken = None\<rparr>]\<rparr>)
   \<and> fst (try_block world_ok None st0) \<noteq> Some (HttpError 410)
   \<and> lastSyncToken (snd (try_block world_ok None st0)) = Some (js ''T1'')
   \<and> (\<exists>st''. updateCalendarEvents (Suc 0) world_ok None st0 = Some st''
            \<and> lastSyncToken st'' = Some (js ''T1''))
   \<and> fetch world_empty_token (Some (js ''T0'')) st_T0 =
     (Inr \<lparr>items = Some [], nextSyncToken = Some []\<rparr>,
      \<lparr>lastSyncToken = Some (js ''T0''), tick = 3,
       trace = [ListCall \<lparr>timeMin = None, timeMax = None, syncToken = Some (js ''T0'')\<rparr>]\<rparr>)
   \<and> updateCalendarEvents (Suc 0) world_empty_token (Some (js ''T0'')) st_T0 =
       Some \<lparr>lastSyncToken = Some [], tick = 3,
             trace = [ListCall \<lparr>timeMin = None, timeMax = None, syncToken = Some (js ''T0'')\<rparr>]\<rparr>"
proof -
  have h1: "fetch world_ok None st0 =
     (Inr \<lparr>items = Some [standup, lunch], nextSyncToken = Some (js ''T1'')\<rparr>,
      \<lparr>lastSyncToken = None, tick = 3,
       trace = [ListCall \<lparr>timeMin = Some 0, timeMax = Some 604801000, syncToken = None\<rparr>]\<rparr>)"
    by code_simp
  have h2: "fst (try_block world_ok None st0) \<noteq> Some (HttpError 410)"
    by code_simp
  have h3: "fetch world_empty_token (Some (js ''T0'')) st_T0 =
     (Inr \<lparr>items = Some [], nextSyncToken = Some []\<rparr>,
      \<lparr>lastSyncToken = Some (js ''T0''), tick = 3,
       trace = [ListCall \<lparr>timeMin = None, timeMax = None, syncToken = Some (js ''T0'')\<rparr>]\<rparr>)"
    by code_simp
  have s1: "nextSyncToken \<lparr>items = Some [standup, lunch], nextSyncToken = Some (js ''T1'')\<rparr>
      = Some (js ''T1'')"
    by simp
  note t1 = token_captured_on_fetch_success [OF h1, of 0, unfolded s1]
  from t1 have a1: "lastSyncToken (snd (try_block world_ok None st0)) = Some (js ''T1'')"
    by (rule conjunct1)
  from t1 h2 have a2: "\<exists>st''. updateCalendarEvents (Suc 0) world_ok None st0 = Some st''
            \<and> lastSyncToken st'' = Some (js ''T1'')"
    by blast
  have s3: "items \<lparr>items = Some [], nextSyncToken = Some []\<rparr> = Some []"
    "\<lparr>lastSyncToken = Some (js ''T0''), tick = 3,
       trace = [ListCall \<lparr>timeMin = None, timeMax = None, syncToken = Some (js ''T0'')\<rparr>]\<rparr>
       \<lparr>lastSyncToken := nextSyncToken \<lparr>items = Some [], nextSyncToken = Some []\<rparr>\<rparr> =
     \<lparr>lastSyncToken = Some [], tick = 3,
       trace = [ListCall \<lparr>timeMin = None, timeMax = None, syncToken = Some (js ''T0'')\<rparr>]\<rparr>"
    by simp_all
  note t3 = token_captured_on_fetch_success [OF h3, of 0, unfolded s3]
  from t3 have b: "updateCalendarEvents (Suc 0) world_empty_token (Some (js ''T0'')) st_T0 =
       Some \<lparr>lastSyncToken = Some [], tick = 3,
             trace = [ListCall \<lparr>timeMin = None, timeMax = None, syncToken = Some (js ''T0'')\<rparr>]\<rparr>"
    by blast
  from h1 h2 h3 a1 a2 b show ?thesis by (intro conjI)
qed

text \<open>
  Claim C6. For an event that is processed, within the bound and with a title, a patch is
  sent exactly when the candidate title differs from the title the event has: when they
  are equal the step ends after the weather lookup and the trace has no new patch, and
  when they differ the trace has one new patch, of this event with the candidate.
\<close>

theorem patch_only_when_title_changes:
  assumes "start ev = Some d" and "\<not> d > tmax" and "summary ev = Some title"
    and "getWeatherInfo e d st = (desc, st1)"
  shows "(newTitle (strip title) desc = title \<longrightarrow>
            process_event e tmax ev st = (None, st1)
            \<and> patches (trace (snd (process_event e tmax ev st))) = patches (trace st))
       \<and> (newTitle (strip title) desc \<noteq> title \<longrightarrow>
            patches (trace (snd (process_event e tmax ev st))) =
              patches (trace st) @ [(ev_id ev, newTitle (strip title) desc)])"
proof -
  have "patches (trace st1) = patches (trace st)"
    using getWeatherInfo_patches [of e d st] assms(4) by simp
  then show ?thesis
    using assms by (simp add: process_event_def interact_def patches_append Let_def)
qed

text \<open>
  An event whose title already carries the description that the lookup returns, and an
  event with a bare title.
\<close>

theorem patch_only_when_title_changes_witness:
  "start decorated = Some 3600000 \<and> \<not> (3600000 :: int) > 604801000
   \<and> summary decorated = Some (js ''Review '' @ cloudy_20)
   \<and> getWeatherInfo world_ok 3600000 st0 =
       (cloudy_20, \<lparr>lastSyncToken = None, tick = 2, trace = [ForecastCall 2]\<rparr>)
   \<and> newTitle (strip (js ''Review '' @ cloudy_20)) cloudy_20 = js ''Review '' @ cloudy_20
   \<and> process_event world_ok 604801000 decorated st0 =
       (None, \<lparr>lastSyncToken = None, tick = 2, trace = [ForecastCall 2]\<rparr>)
   \<and> patches (trace (snd (process_event world_ok 604801000 decorated st0))) = patches (trace st0)
   \<and> start standup = Some 3600000 \<and> summary standup = Some (js ''Standup'')
   \<and> newTitle (strip (js ''Standup'')) cloudy_20 \<noteq> js ''Standup''
   \<and> patches (trace (snd (process_event world_ok 604801000 standup st0))) =
       patches (trace st0) @ [(ev_id standup, newTitle (strip (js ''Standup'')) cloudy_20)]"
proof -
  let ?st1 = "\<lparr>lastSyncToken = None, tick = 2, trace = [ForecastCall 2]\<rparr>"
  have h1: "start decorated = Some 3600000" by code_simp
  have h2: "\<not> (3600000 :: int) > 604801000" by simp
  have h3: "summary decorated = Some (js ''Review '' @ cloudy_20)" by code_simp
  have h4: "getWeatherInfo world_ok 3600000 st0 = (cloudy_20, ?st1)" by code_simp
  have h5: "newTitle (strip (js ''Review '' @ cloudy_20)) cloudy_20 = js ''Review '' @ cloudy_20"
    by code_simp
  have k1: "start standup = Some 3600000" by code_simp
  have k3: "summary standup = Some (js ''Standup'')" by code_simp
  have k5: "newTitle (strip (js ''Standup'')) cloudy_20 \<noteq> js ''Standup''" by code_simp
  note a = patch_only_when_title_changes [OF h1 h2 h3 h4, THEN conjunct1, THEN mp, OF h5]
  note b = patch_only_when_title_changes [OF k1 h2 k3 h4, THEN conjunct2, THEN mp, OF k5]
  from h1 h2 h3 h4 h5 a [THEN conjunct1] a [THEN conjunct2] k1 k3 k5 b show ?thesis
    by (intro conjI)
qed

text \<open>
  Claim C7. When the request fails with an error other than status 410, the cycle returns,
  the token is the one from before the cycle, and the cycle has done nothing but send the
  request and log the error: no forecast was asked for and no event was patched.
\<close>

theorem fetch_error_aborts_cycle:
  assumes "fetch e tok st = (Inl err, st')" and "err \<noteq> HttpError 410"
  shows "updateCalendarEvents (Suc depth) e tok st = Some (console_error (ErrorLogged err) st')
       \<and> lastSyncToken (console_error (ErrorLogged err) st') = lastSyncToken st
       \<and> trace (console_error (ErrorLogged err) st') =
           trace st @
           [ListCall (listParams tok (clock e (tick st)) (clock e (Suc (tick st)) + 7 * ms_per_day)),
            ErrorLogged err]"
proof -
  from assms(1) have st': "st' = snd (fetch e tok st)" by simp
  have "try_block e tok st = (Some err, st')"
    using assms(1) by (rule try_block_fetch_error)
  then have "updateCalendarEvents (Suc depth) e tok st = Some (console_error (ErrorLogged err) st')"
    using assms(2) by (rule cycle_logs)
  then show ?thesis
    by (simp add: st' fetch_eq console_error_def)
qed

text \<open>The calendar answers status 500 to a request that carries the token \<^verbatim>\<open>T0\<close>.\<close>

theorem fetch_error_aborts_cycle_witness:
  "fetch world_down (Some (js ''T0'')) st_T0 =
     (Inl (HttpError 500),
      \<lparr>lastSyncToken = Some (js ''T0''), tick = 3,
       trace = [ListCall \<lparr>timeMin = None, timeMax = None, syncToken = Some (js ''T0'')\<rparr>]\<rparr>)
   \<and> HttpError 500 \<noteq> HttpError 410
   \<and> updateCalendarEvents (Suc 0) world_down (Some (js ''T0'')) st_T0 =
       Some \<lparr>lastSyncToken = Some (js ''T0''), tick = 3,
             trace = [ListCall \<lparr>timeMin = None, timeMax = None, syncToken = Some (js ''T0'')\<rparr>,
                      ErrorLogged (HttpError 500)]\<rparr>"
proof -
  have h1: "fetch world_down (Some (js ''T0'')) st_T0 =
     (Inl (HttpError 500),
      \<lparr>lastSyncToken = Some (js ''T0''), tick = 3,
       trace = [ListCall \<lparr>timeMin = None, timeMax = None, syncToken = Some (js ''T0'')\<rparr>]\<rparr>)"
    by code_simp
  have h2: "HttpError 500 \<noteq> HttpError 410" by simp
  have c: "console_error (ErrorLogged (HttpError 500))
      \<lparr>lastSyncToken = Some (js ''T0''), tick = 3,
       trace = [ListCall \<lparr>timeMin = None, timeMax = None, syncToken = Some (js ''T0'')\<rparr>]\<rparr> =
      \<lparr>lastSyncToken = Some (js ''T0''), tick = 3,
       trace = [ListCall \<lparr>timeMin = None, timeMax = None, syncToken = Some (js ''T0'')\<rparr>,
                ErrorLogged (HttpError 500)]\<rparr>"
    by (simp add: console_error_def)
  from fetch_error_aborts_cycle [OF h1 h2, of 0, THEN conjunct1]
  have "updateCalendarEvents (Suc 0) world_down (Some (js ''T0'')) st_T0 =
       Some \<lparr>lastSyncToken = Some (js ''T0''), tick = 3,
             trace = [ListCall \<lparr>timeMin = None, timeMax = None, syncToken = Some (js ''T0'')\<rparr>,
                      ErrorLogged (HttpError 500)]\<rparr>"
    by (simp only: c)
  with h1 h2 show ?thesis by (intro conjI)
qed

text \<open>
  Claim C8, amended. A lookup for a time more than fourteen days after the clock reading
  returns the placeholder \<^verbatim>\<open>(forecast unavailable)\<close>; it reads the clock and does
  nothing else, so no request is sent and nothing is thrown. A title composed from the
  placeholder ends in it.
\<close>

theorem far_horizon_forecast_unavailable:
  assumes "eventDate - clock e (tick st) > 14 * ms_per_day"
  shows "getWeatherInfo e eventDate st = (forecast_unavailable, st\<lparr>tick := Suc (tick st)\<rparr>)
       \<and> endsWith (newTitle c forecast_unavailable) forecast_unavailable"
proof -
  from assms have "daysDifference eventDate (clock e (tick st)) > 14"
    by (simp only: daysDifference_far)
  then show ?thesis
    by (simp add: getWeatherInfo_def new_Date_def newTitle_def endsWith_def)
qed

text \<open>
  Claim C8 as stated fails in the text of the placeholder. For an event twenty days ahead
  the lookup returns \<^verbatim>\<open>(forecast unavailable)\<close>, and the title composed from it does not
  end in \<^verbatim>\<open>(weather unavailable)\<close>, which is what the lookup returns when the request
  fails.
\<close>

theorem far_horizon_placeholder_text:
  "fst (getWeatherInfo world_ok (20 * ms_per_day) st0) = js ''(forecast unavailable)''
   \<and> \<not> endsWith (newTitle (js ''Standup'') (fst (getWeatherInfo world_ok (20 * ms_per_day) st0)))
        (js ''(weather unavailable)'')"
  by code_simp

text \<open>An event twenty days after a clock reading of zero.\<close>

theorem far_horizon_forecast_unavailable_witness:
  "20 * ms_per_day - clock world_ok (tick st0) > 14 * ms_per_day
   \<and> getWeatherInfo world_ok (20 * ms_per_day) st0 =
       (forecast_unavailable, st0\<lparr>tick := Suc (tick st0)\<rparr>)
   \<and> endsWith (newTitle (js ''Standup'') forecast_unavailable) forecast_unavailable"
proof -
  have h: "20 * ms_per_day - clock world_ok (tick st0) > 14 * ms_per_day" by code_simp
  note t = far_horizon_forecast_unavailable [OF h, of "js ''Standup''"]
  from h t [THEN conjunct1] t [THEN conjunct2] show ?thesis
    by (intro conjI)
qed

text \<open>
  Claim C9, amended. A pass is one run of the \<^verbatim>\<open>try\<close> block; its upper bound is its own
  second clock reading plus seven days. Whatever the token passed, set or not, a pass
  whose request succeeds processes the returned events as if those that start after its
  bound were not in the list: the step for such an event returns at once and leaves the
  state as it was, so no forecast is asked for it and it is not patched. When the pass
  does not end by status 410 it is the whole cycle, which returns in the state the pass
  left, with the error logged if there was one. When the pass ends by status 410 the
  cycle goes on as a new cycle without a token, whose pass computes a bound of its own.
\<close>

theorem events_after_bound_are_skipped:
  assumes "fetch e tok st = (Inr res, st')" and "items res = Some evs"
  shows "let B = clock e (Suc (tick st)) + 7 * ms_per_day;
             kept = filter (\<lambda>ev. case start ev of None \<Rightarrow> True | Some d \<Rightarrow> \<not> d > B) evs;
             pass = (if evs = [] then (None, st'\<lparr>lastSyncToken := nextSyncToken res\<rparr>)
                     else completed e
                            (process_events e B kept (st'\<lparr>lastSyncToken := nextSyncToken res\<rparr>)))
         in try_block e tok st = pass
          \<and> (\<forall>ev \<in> set evs. \<forall>d s. start ev = Some d \<and> d > B \<longrightarrow>
                process_event e B ev s = (None, s))
          \<and> (fst pass = None \<longrightarrow>
                updateCalendarEvents (Suc depth) e tok st = Some (snd pass))
          \<and> (\<forall>err. fst pass = Some err \<and> err \<noteq> HttpError 410 \<longrightarrow>
                updateCalendarEvents (Suc depth) e tok st =
                  Some (console_error (ErrorLogged err) (snd pass)))
          \<and> (fst pass = Some (HttpError 410) \<longrightarrow>
                updateCalendarEvents (Suc depth) e tok st =
                  updateCalendarEvents depth e None ((snd pass)\<lparr>lastSyncToken := None\<rparr>))"
proof -
  define B where "B = clock e (Suc (tick st)) + 7 * ms_per_day"
  define kept where
    "kept = filter (\<lambda>ev. case start ev of None \<Rightarrow> True | Some d \<Rightarrow> \<not> d > B) evs"
  define pass where
    "pass = (if evs = [] then (None, st'\<lparr>lastSyncToken := nextSyncToken res\<rparr>)
             else completed e
                    (process_events e B kept (st'\<lparr>lastSyncToken := nextSyncToken res\<rparr>)))"
  have tb: "try_block e tok st = pass"
  proof (cases "evs = []")
    case True
    with assms show ?thesis by (simp add: pass_def try_block_no_events)
  next
    case False
    have "process_events e B evs (st'\<lparr>lastSyncToken := nextSyncToken res\<rparr>) =
        process_events e B kept (st'\<lparr>lastSyncToken := nextSyncToken res\<rparr>)"
      unfolding kept_def by (rule process_events_filter)
    with False assms show ?thesis
      by (simp add: pass_def try_block_events bounds_tmax B_def)
  qed
  have skip: "\<forall>ev \<in> set evs. \<forall>d s. start ev = Some d \<and> d > B \<longrightarrow>
      process_event e B ev s = (None, s)"
    by (simp add: process_event_skip)
  obtain r s1 where p: "pass = (r, s1)" by (cases pass)
  have c1: "fst pass = None \<longrightarrow> updateCalendarEvents (Suc depth) e tok st = Some (snd pass)"
    using tb p by simp
  have c2: "\<forall>err. fst pass = Some err \<and> err \<noteq> HttpError 410 \<longrightarrow>
      updateCalendarEvents (Suc depth) e tok st =
        Some (console_error (ErrorLogged err) (snd pass))"
    using tb p by simp
  have c3: "fst pass = Some (HttpError 410) \<longrightarrow>
      updateCalendarEvents (Suc depth) e tok st =
        updateCalendarEvents depth e None ((snd pass)\<lparr>lastSyncToken := None\<rparr>)"
    using tb p by simp
  show ?thesis
    unfolding Let_def B_def [symmetric] kept_def [symmetric] pass_def [symmetric]
    using tb skip c1 c2 c3 by blast
qed

text \<open>
  Claim C9 as stated, for the bound computed at the start of the cycle, fails when the
  cycle has a second pass. The cycle starts with the token \<^verbatim>\<open>T0\<close> and its bound is
  604801000. The calendar returns an event that starts at 604803000 and one within the
  hour. The first pass skips the first event and patches the second; that patch is
  answered with status 410. The second pass has the bound 604807000: it asks for a
  forecast for the first event and patches it.
\<close>

theorem event_after_first_bound_patched_by_retry:
  "start edge = Some 604803000
   \<and> 604803000 > clock world_retry_moves_bound (Suc (tick st_T0)) + 7 * ms_per_day
   \<and> updateCalendarEvents 2 world_retry_moves_bound (Some (js ''T0'')) st_T0 =
       Some \<lparr>lastSyncToken = Some (js ''T1''), tick = 16,
             trace = [ListCall \<lparr>timeMin = None, timeMax = None, syncToken = Some (js ''T0'')\<rparr>,
                      ForecastCall 2,
                      PatchCall (js ''e1'') (js ''Standup '' @ cloudy_20),
                      ListCall \<lparr>timeMin = Some 6000, timeMax = Some 604807000, syncToken = None\<rparr>,
                      ForecastCall 8,
                      PatchCall (js ''e5'') (js ''Offsite (forecast unavailable)''),
                      ForecastCall 2,
                      PatchCall (js ''e1'') (js ''Standup '' @ cloudy_20)]\<rparr>"
  by code_simp

text \<open>
  A cycle with the token \<^verbatim>\<open>T0\<close>, so that the request carries no time bounds. The
  calendar returns an event eight days ahead and one within the hour; the cycle has one
  pass, which leaves the first event alone and patches the second.
\<close>

theorem events_after_bound_are_skipped_witness:
  "fetch world_mixed (Some (js ''T0'')) st_T0 =
     (Inr \<lparr>items = Some [next_week, standup], nextSyncToken = Some (js ''T1'')\<rparr>,
      \<lparr>lastSyncToken = Some (js ''T0''), tick = 3,
       trace = [ListCall \<lparr>timeMin = None, timeMax = None, syncToken = Some (js ''T0'')\<rparr>]\<rparr>)
   \<and> next_week \<in> set [next_week, standup]
   \<and> start next_week = Some 691200000
   \<and> 691200000 > clock world_mixed (Suc (tick st_T0)) + 7 * ms_per_day
   \<and> process_event world_mixed (clock world_mixed (Suc (tick st_T0)) + 7 * ms_per_day) next_week st0
       = (None, st0)
   \<and> try_block world_mixed (Some (js ''T0'')) st_T0 =
       (None,
        \<lparr>lastSyncToken = Some (js ''T1''), tick = 7,
         trace = [ListCall \<lparr>timeMin = None, timeMax = None, syncToken = Some (js ''T0'')\<rparr>,
                  ForecastCall 2,
                  PatchCall (js ''e1'') (js ''Standup '' @ cloudy_20)]\<rparr>)
   \<and> updateCalendarEvents (Suc 0) world_mixed (Some (js ''T0'')) st_T0 =
       Some \<lparr>lastSyncToken = Some (js ''T1''), tick = 7,
             trace = [ListCall \<lparr>timeMin = None, timeMax = None, syncToken = Some (js ''T0'')\<rparr>,
                      ForecastCall 2,
                      PatchCall (js ''e1'') (js ''Standup '' @ cloudy_20)]\<rparr>"
proof -
  let ?w = world_mixed
  let ?res = "\<lparr>items = Some [next_week, standup], nextSyncToken = Some (js ''T1'')\<rparr>"
  let ?st' = "\<lparr>lastSyncToken = Some (js ''T0''), tick = 3,
       trace = [ListCall \<lparr>timeMin = None, timeMax = None, syncToken = Some (js ''T0'')\<rparr>]\<rparr>"
  let ?end = "\<lparr>lastSyncToken = Some (js ''T1''), tick = 7,
         trace = [ListCall \<lparr>timeMin = None, timeMax = None, syncToken = Some (js ''T0'')\<rparr>,
                  ForecastCall 2,
                  PatchCall (js ''e1'') (js ''Standup '' @ cloudy_20)]\<rparr>"
  have h1: "fetch ?w (Some (js ''T0'')) st_T0 = (Inr ?res, ?st')" by code_simp
  have h2: "items ?res = Some [next_week, standup]" by simp
  have m: "next_week \<in> set [next_week, standup]" by simp
  have h3: "start next_week = Some 691200000" by code_simp
  have h4: "691200000 > clock ?w (Suc (tick st_T0)) + 7 * ms_per_day" by code_simp
  have tb: "try_block ?w (Some (js ''T0'')) st_T0 = (None, ?end)" by code_simp
  note t = events_after_bound_are_skipped [OF h1 h2, of 0, unfolded Let_def]
  note p = trans [OF t [THEN conjunct1, symmetric] tb]
  note t2 = t [THEN conjunct2, THEN conjunct1]
  note t3 = t [THEN conjunct2, THEN conjunct2, THEN conjunct1, unfolded p]
  from t2 m h3 h4 have skip: "process_event ?w (clock ?w (Suc (tick st_T0)) + 7 * ms_per_day)
      next_week st0 = (None, st0)"
    by blast
  have f: "fst (None :: js_error option, ?end) = None" by simp
  have s: "snd (None :: js_error option, ?end) = ?end" by simp
  from t3 [THEN mp, OF f] have r: "updateCalendarEvents (Suc 0) ?w (Some (js ''T0'')) st_T0 = Some ?end"
    by (simp only: s)
  from h1 m h3 h4 skip tb r show ?thesis by (intro conjI)
qed



end
